theory Spec2Isabelle
  imports Main
begin

section \<open>The speech-recognition hook of \<^verbatim>\<open>src/App.js\<close>\<close>

text \<open>
  The hook \<^verbatim>\<open>useWebSpeechRecognition\<close> keeps five pieces of React state and one
  ref. Every handler below is the body of the JavaScript function of the same name, with
  each \<^verbatim>\<open>setX(v)\<close> written as a record update and the state passed explicitly.
  The host delivers handlers one at a time, so a run of the program is a list of events
  folded over the state. Calls to \<^verbatim>\<open>console.log\<close> and \<^verbatim>\<open>console.error\<close> change no
  state and are left out; calls to the recogniser and to \<^verbatim>\<open>Alert.alert\<close> are
  returned as a list of effects.
\<close>

subsection \<open>Data\<close>

text \<open>
  The recogniser object built on mount: \<^verbatim>\<open>continuous\<close>, \<^verbatim>\<open>interimResults\<close> and
  \<^verbatim>\<open>lang\<close> are the three properties the source assigns.
\<close>

record recognition =
  continuous :: bool
  interimResults :: bool
  lang :: string

text \<open>
  One entry of \<^verbatim>\<open>event.results\<close>. The handler reads \<^verbatim>\<open>results[i][0].transcript\<close>
  and \<^verbatim>\<open>results[i].isFinal\<close> only; a recognition result always carries its best
  alternative, which is the field \<open>best\<close>.
\<close>

record speech_result =
  best :: string
  isFinal :: bool

record result_event =
  resultIndex :: nat
  results :: "speech_result list"

record hook_state =
  isListening :: bool
  transcript :: string
  interimTranscript :: string
  error :: string
  isSupported :: bool
  recognitionRef :: "recognition option"

text \<open>The component \<^verbatim>\<open>App\<close> adds the text field and the speaking flag.\<close>

record app_state =
  speech :: hook_state
  textToSpeak :: string
  isSpeaking :: bool

text \<open>
  What the runtime offers when the effect of the hook runs: no \<^verbatim>\<open>window\<close> at all, a
  window without a recogniser constructor, or a window with one.
\<close>

datatype environment = NoWindow | NoSpeechAPI | HasSpeechAPI

text \<open>
  A call into the recogniser either returns or throws; the source wraps both calls in
  \<^verbatim>\<open>try\<close>/\<^verbatim>\<open>catch\<close>. Which of the two happens is decided by the browser, so it is
  a parameter of the handler.
\<close>

datatype call_outcome = Returns | Throws

datatype effect = ProviderStart | ProviderStop | Alert string string

subsection \<open>Mounting\<close>

definition initial :: hook_state where
  "initial = \<lparr> isListening = False, transcript = [], interimTranscript = [],
     error = [], isSupported = False, recognitionRef = None \<rparr>"

definition mount :: "environment \<Rightarrow> hook_state" where
  "mount env =
     (case env of
        HasSpeechAPI \<Rightarrow>
          initial \<lparr> isSupported := True,
            recognitionRef := Some \<lparr> continuous = True, interimResults = True,
              lang = ''en-US'' \<rparr> \<rparr>
      | NoSpeechAPI \<Rightarrow>
          initial \<lparr> isSupported := False,
            error := ''Web Speech API not supported in this browser. Please use Chrome or Edge.'' \<rparr>
      | NoWindow \<Rightarrow>
          initial \<lparr> isSupported := False,
            error := ''Please open this app in a web browser for speech recognition.'' \<rparr>)"

definition unmount :: "hook_state \<Rightarrow> effect list" where
  "unmount s = (case recognitionRef s of None \<Rightarrow> [] | Some r \<Rightarrow> [ProviderStop])"

subsection \<open>Handlers of the recogniser's events\<close>

definition onstart :: "hook_state \<Rightarrow> hook_state" where
  "onstart s = s \<lparr> isListening := True, error := [] \<rparr>"

text \<open>
  The loop \<^verbatim>\<open>for (let i = event.resultIndex; i < event.results.length; i++)\<close> with its
  two accumulators, the first for \<^verbatim>\<open>finalTranscript\<close> and the second for the local
  \<^verbatim>\<open>interimTranscript\<close>.
\<close>

function onresult_loop ::
  "speech_result list \<Rightarrow> nat \<Rightarrow> string \<times> string \<Rightarrow> string \<times> string" where
  "onresult_loop rs i (finalTranscript, interim) =
     (if i < length rs then
        (if isFinal (rs ! i)
         then onresult_loop rs (Suc i) (finalTranscript @ best (rs ! i), interim)
         else onresult_loop rs (Suc i) (finalTranscript, interim @ best (rs ! i)))
      else (finalTranscript, interim))"
  by pat_completeness auto
termination
  by (relation "measure (\<lambda>(rs, i, acc). length rs - i)") auto

declare onresult_loop.simps [simp del]

definition onresult :: "result_event \<Rightarrow> hook_state \<Rightarrow> hook_state" where
  "onresult event s =
     (case onresult_loop (results event) (resultIndex event) ([], []) of
        (finalTranscript, interim) \<Rightarrow>
          (if finalTranscript \<noteq> []
           then s \<lparr> transcript := transcript s @ finalTranscript \<rparr>
           else s) \<lparr> interimTranscript := interim \<rparr>)"

definition errorMessage :: "string \<Rightarrow> string" where
  "errorMessage code =
     (if code = ''not-allowed''
        then ''Microphone access denied. Please allow microphone permissions.''
      else if code = ''no-speech'' then ''No speech detected. Please try again.''
      else if code = ''audio-capture''
        then ''No microphone found. Please check your microphone.''
      else if code = ''network'' then ''Network error. Please check your connection.''
      else ''Speech recognition error: '' @ code)"

definition onerror :: "string \<Rightarrow> hook_state \<Rightarrow> hook_state" where
  "onerror code s = s \<lparr> error := errorMessage code, isListening := False \<rparr>"

definition onend :: "hook_state \<Rightarrow> hook_state" where
  "onend s = s \<lparr> isListening := False, interimTranscript := [] \<rparr>"

subsection \<open>Operations offered to the caller\<close>

definition startListening :: "call_outcome \<Rightarrow> hook_state \<Rightarrow> effect list \<times> hook_state" where
  "startListening outcome s =
     (if \<not> isSupported s then
        ([Alert ''Not Supported''
            ''Please open this app in Chrome or Edge browser for speech recognition.''], s)
      else
        (let s1 = s \<lparr> error := [], transcript := [], interimTranscript := [] \<rparr> in
         case recognitionRef s of
           None \<Rightarrow> ([], s1)
         | Some r \<Rightarrow>
             (case outcome of
                Returns \<Rightarrow> ([ProviderStart], s1)
              | Throws \<Rightarrow>
                  ([ProviderStart],
                   s1 \<lparr> error := ''Failed to start speech recognition. Please try again.'' \<rparr>))))"

definition stopListening :: "call_outcome \<Rightarrow> hook_state \<Rightarrow> effect list \<times> hook_state" where
  "stopListening outcome s =
     (case recognitionRef s of
        None \<Rightarrow> ([], s)
      | Some r \<Rightarrow> (case outcome of Returns \<Rightarrow> ([ProviderStop], s) | Throws \<Rightarrow> ([ProviderStop], s)))"

definition clearTranscript :: "hook_state \<Rightarrow> hook_state" where
  "clearTranscript s = s \<lparr> transcript := [], interimTranscript := [], error := [] \<rparr>"

definition copyToInput :: "app_state \<Rightarrow> effect list \<times> app_state" where
  "copyToInput a =
     (if transcript (speech a) \<noteq> [] then
        ([Alert ''Copied!'' ''Speech result copied to text input.''],
         a \<lparr> textToSpeak := transcript (speech a), speech := clearTranscript (speech a) \<rparr>)
      else ([], a))"

definition fullTranscript :: "hook_state \<Rightarrow> string" where
  "fullTranscript s = transcript s @ interimTranscript s"

subsection \<open>Runs\<close>

datatype event =
    Start call_outcome
  | Stop call_outcome
  | Clear
  | OnStart
  | OnResult result_event
  | OnError string
  | OnEnd

fun step :: "event \<Rightarrow> hook_state \<Rightarrow> effect list \<times> hook_state" where
  "step (Start outcome) s = startListening outcome s"
| "step (Stop outcome) s = stopListening outcome s"
| "step Clear s = ([], clearTranscript s)"
| "step OnStart s = ([], onstart s)"
| "step (OnResult event) s = ([], onresult event s)"
| "step (OnError code) s = ([], onerror code s)"
| "step OnEnd s = ([], onend s)"

fun run :: "event list \<Rightarrow> hook_state \<Rightarrow> hook_state" where
  "run [] s = s"
| "run (e # es) s = run es (snd (step e s))"

fun effects :: "event list \<Rightarrow> hook_state \<Rightarrow> effect list" where
  "effects [] s = []"
| "effects (e # es) s = fst (step e s) @ effects es (snd (step e s))"

subsection \<open>Reading an event\<close>

text \<open>
  The segments an event delivers are the entries of \<^verbatim>\<open>event.results\<close> from
  \<^verbatim>\<open>event.resultIndex\<close> on; \<open>final_text\<close> and \<open>interim_text\<close> are the texts of
  those tagged final and of those tagged interim, joined in order.
\<close>

definition delivered :: "result_event \<Rightarrow> speech_result list" where
  "delivered event = drop (resultIndex event) (results event)"

definition final_text :: "result_event \<Rightarrow> string" where
  "final_text event = concat (map best (filter isFinal (delivered event)))"

definition interim_text :: "result_event \<Rightarrow> string" where
  "interim_text event = concat (map best (filter (\<lambda>r. \<not> isFinal r) (delivered event)))"

subsection \<open>Predicates on runs and on messages\<close>

text \<open>
  \<open>results_while_listening es s\<close>: along the run of \<open>es\<close> from \<open>s\<close>, every result
  event arrives in a state whose \<^verbatim>\<open>isListening\<close> flag is set.
\<close>

fun results_while_listening :: "event list \<Rightarrow> hook_state \<Rightarrow> bool" where
  "results_while_listening [] s = True"
| "results_while_listening (OnResult event # es) s =
     (isListening s \<and> results_while_listening es (onresult event s))"
| "results_while_listening (e # es) s = results_while_listening es (snd (step e s))"

text \<open>
  \<open>error_meets_fragment es s\<close>: somewhere along the run of \<open>es\<close> from \<open>s\<close> an
  error event arrives in a state whose pending fragment is not empty.
\<close>

fun error_meets_fragment :: "event list \<Rightarrow> hook_state \<Rightarrow> bool" where
  "error_meets_fragment [] s = False"
| "error_meets_fragment (OnError code # es) s =
     (interimTranscript s \<noteq> [] \<or> error_meets_fragment es (onerror code s))"
| "error_meets_fragment (e # es) s = error_meets_fragment es (snd (step e s))"

text \<open>\<open>mentions t w\<close>: the word \<open>w\<close> occurs in the text \<open>t\<close>.\<close>

fun starts_with :: "string \<Rightarrow> string \<Rightarrow> bool" where
  "starts_with t [] = True"
| "starts_with [] (c # w) = False"
| "starts_with (d # t) (c # w) = (d = c \<and> starts_with t w)"

fun mentions :: "string \<Rightarrow> string \<Rightarrow> bool" where
  "mentions [] w = (w = [])"
| "mentions (d # t) w = (starts_with (d # t) w \<or> mentions t w)"

subsection \<open>Inputs used in the examples\<close>

abbreviation en_US_recognition :: recognition where
  "en_US_recognition \<equiv> \<lparr> continuous = True, interimResults = True, lang = ''en-US'' \<rparr>"

abbreviation event_hello :: result_event where
  "event_hello \<equiv> \<lparr> resultIndex = 0, results = [\<lparr> best = ''hello '', isFinal = True \<rparr>] \<rparr>"

abbreviation event_hello_world :: result_event where
  "event_hello_world \<equiv>
     \<lparr> resultIndex = 1,
       results = [\<lparr> best = ''hello '', isFinal = True \<rparr>,
                  \<lparr> best = ''world'', isFinal = False \<rparr>] \<rparr>"

abbreviation event_hello_wor :: result_event where
  "event_hello_wor \<equiv>
     \<lparr> resultIndex = 0,
       results = [\<lparr> best = ''hello '', isFinal = True \<rparr>,
                  \<lparr> best = ''wor'', isFinal = False \<rparr>] \<rparr>"

abbreviation event_hel :: result_event where
  "event_hel \<equiv> \<lparr> resultIndex = 0, results = [\<lparr> best = ''hel'', isFinal = False \<rparr>] \<rparr>"

abbreviation app_with_transcript :: app_state where
  "app_with_transcript \<equiv>
     \<lparr> speech = (mount HasSpeechAPI) \<lparr> transcript := ''hello '', interimTranscript := ''wor'' \<rparr>,
       textToSpeak = ''old'', isSpeaking = False \<rparr>"

abbreviation app_without_transcript :: app_state where
  "app_without_transcript \<equiv>
     \<lparr> speech = mount HasSpeechAPI, textToSpeak = ''old'', isSpeaking = False \<rparr>"

abbreviation heard_hello :: hook_state where
  "heard_hello \<equiv> run [Start Returns, OnStart, OnResult event_hello] (mount HasSpeechAPI)"

abbreviation heard_hello_wor :: hook_state where
  "heard_hello_wor \<equiv> run [Start Returns, OnStart, OnResult event_hello_wor] (mount HasSpeechAPI)"

abbreviation heard_hel :: hook_state where
  "heard_hel \<equiv> run [Start Returns, OnStart, OnResult event_hel] (mount HasSpeechAPI)"

abbreviation session_hit_by_error :: "event list" where
  "session_hit_by_error \<equiv> [Start Returns, OnStart, OnResult event_hel, OnError ''network'']"

section \<open>The result handler\<close>

lemma onresult_loop_eq:
  "onresult_loop rs i (f, t) =
     (f @ concat (map best (filter isFinal (drop i rs))),
      t @ concat (map best (filter (\<lambda>r. \<not> isFinal r) (drop i rs))))"
proof (induction rs i "(f, t)" arbitrary: f t rule: onresult_loop.induct)
  case (1 rs i f t)
  show ?case
  proof (cases "i < length rs")
    case False
    then show ?thesis
      by (simp add: onresult_loop.simps [of rs i])
  next
    case True
    then have d: "drop i rs = rs ! i # drop (Suc i) rs"
      by (simp add: Cons_nth_drop_Suc)
    show ?thesis
    proof (cases "isFinal (rs ! i)")
      case True
      with \<open>i < length rs\<close> "1.hyps"(1) d show ?thesis
        by (simp add: onresult_loop.simps [of rs i])
    next
      case False
      with \<open>i < length rs\<close> "1.hyps"(2) d show ?thesis
        by (simp add: onresult_loop.simps [of rs i])
    qed
  qed
qed

lemma onresult_eq:
  "onresult event s =
     s \<lparr> transcript := transcript s @ final_text event,
         interimTranscript := interim_text event \<rparr>"
  by (simp add: onresult_def onresult_loop_eq final_text_def interim_text_def delivered_def)

lemma run_results_transcript:
  "transcript (run (map OnResult evs) s) = transcript s @ concat (map final_text evs)"
  by (induction evs arbitrary: s) (simp_all add: onresult_eq)

lemma run_results_listening:
  "isListening (run (map OnResult evs) s) = isListening s"
  by (induction evs arbitrary: s) (simp_all add: onresult_eq)

text \<open>
  C1. After \<^verbatim>\<open>startListening\<close> in a supported environment and the recogniser's start
  event, any sequence of result events leaves \<^verbatim>\<open>transcript\<close> equal to the texts of
  the segments tagged final that the events delivered, joined in the order of delivery,
  and the hook is listening throughout. The segments an event delivers are those from its
  \<^verbatim>\<open>resultIndex\<close> on, which is where the loop starts.
\<close>

theorem committed_is_finals_since_start:
  "isSupported s \<Longrightarrow>
   transcript (run (map OnResult evs) (run [Start Returns, OnStart] s)) =
     concat (map final_text evs)
   \<and> isListening (run (map OnResult evs) (run [Start Returns, OnStart] s))"
  by (simp add: run_results_transcript run_results_listening startListening_def
      onstart_def Let_def split: option.splits)

theorem committed_is_finals_since_start_witness:
  "isSupported (mount HasSpeechAPI) \<and>
   transcript (run (map OnResult [event_hello, event_hello_world])
     (run [Start Returns, OnStart] (mount HasSpeechAPI))) = ''hello ''"
  using committed_is_finals_since_start [of "mount HasSpeechAPI" "[event_hello, event_hello_world]"]
  by (simp add: mount_def initial_def final_text_def delivered_def)

text \<open>
  C2. After a result event the pending fragment \<^verbatim>\<open>interimTranscript\<close> is the joined
  text of the segments tagged interim in that event, whatever the state held before: the
  fragment is replaced, not extended.
\<close>

theorem pending_is_interim_of_event:
  "interimTranscript (onresult event s) = interim_text event"
  by (simp add: onresult_eq)

text \<open>
  The two events of the example: \<open>''hello ''\<close> final, then the same list extended by
  \<open>''world''\<close> interim with \<^verbatim>\<open>resultIndex\<close> 1.
\<close>

lemma hello_world_scenario:
  "transcript (run [OnResult event_hello, OnResult event_hello_world]
      (run [Start Returns, OnStart] (mount HasSpeechAPI))) = ''hello ''
   \<and> interimTranscript (run [OnResult event_hello, OnResult event_hello_world]
      (run [Start Returns, OnStart] (mount HasSpeechAPI))) = ''world''
   \<and> fullTranscript (run [OnResult event_hello, OnResult event_hello_world]
      (run [Start Returns, OnStart] (mount HasSpeechAPI))) = ''hello world''"
  by (simp add: mount_def initial_def startListening_def onstart_def onresult_eq
      fullTranscript_def interim_text_def final_text_def delivered_def)

section \<open>Starting\<close>

text \<open>
  Neither flag of the environment is written after mounting, so in every state of a run
  \<^verbatim>\<open>isSupported\<close> holds exactly when the ref holds a recogniser.
\<close>

lemma step_isSupported: "isSupported (snd (step e s)) = isSupported s"
  by (cases e) (simp_all add: startListening_def stopListening_def clearTranscript_def
      onstart_def onresult_eq onerror_def onend_def Let_def
      split: option.splits call_outcome.splits)

lemma step_recognitionRef: "recognitionRef (snd (step e s)) = recognitionRef s"
  by (cases e) (simp_all add: startListening_def stopListening_def clearTranscript_def
      onstart_def onresult_eq onerror_def onend_def Let_def
      split: option.splits call_outcome.splits)

lemma run_supported_ref:
  "isSupported (run es s) = isSupported s \<and> recognitionRef (run es s) = recognitionRef s"
  by (induction es arbitrary: s) (simp_all add: step_isSupported step_recognitionRef)

lemma mount_supported_ref: "isSupported (mount env) = (recognitionRef (mount env) \<noteq> None)"
  by (cases env) (simp_all add: mount_def initial_def)

lemma reachable_supported_ref:
  "isSupported (run es (mount env)) = (recognitionRef (run es (mount env)) \<noteq> None)"
  by (simp add: run_supported_ref mount_supported_ref)

text \<open>
  C3, as stated, fails: in a supported environment the state right after
  \<^verbatim>\<open>startListening\<close> is not listening. The handler never writes \<^verbatim>\<open>isListening\<close>.
\<close>

theorem start_not_listening_counterexample:
  "isSupported (mount HasSpeechAPI)
   \<and> \<not> isListening (snd (startListening Returns (mount HasSpeechAPI)))"
  by (simp add: mount_def initial_def startListening_def)

text \<open>
  C3, amended. With the recogniser available, \<^verbatim>\<open>startListening\<close> from any state
  empties the error, the committed transcript and the pending fragment and issues the start
  request; when the request returns, \<^verbatim>\<open>isListening\<close> is as it was. The state is
  listening once the recogniser's start event has been handled.
\<close>

theorem start_clears_then_onstart_listens:
  "isSupported s \<Longrightarrow> recognitionRef s = Some r \<Longrightarrow>
   startListening Returns s =
     ([ProviderStart], s \<lparr> error := [], transcript := [], interimTranscript := [] \<rparr>)
   \<and> isListening (snd (startListening Returns s)) = isListening s
   \<and> onstart (snd (startListening Returns s)) =
       s \<lparr> isListening := True, error := [], transcript := [], interimTranscript := [] \<rparr>"
  by (simp add: startListening_def onstart_def)

theorem start_clears_then_onstart_listens_witness:
  "isSupported heard_hello
   \<and> recognitionRef heard_hello = Some en_US_recognition
   \<and> startListening Returns (onend heard_hello) =
     ([ProviderStart],
      \<lparr> isListening = False, transcript = [], interimTranscript = [], error = [],
        isSupported = True, recognitionRef = Some en_US_recognition \<rparr>)
   \<and> isListening (onstart (snd (startListening Returns (onend heard_hello))))"
  using start_clears_then_onstart_listens [of "onend heard_hello" en_US_recognition]
  by (simp add: mount_def initial_def startListening_def onstart_def onend_def onresult_eq
      interim_text_def final_text_def delivered_def)

text \<open>
  C7, as stated, fails: while listening with \<open>''hello ''\<close> committed and no error, a
  start request that throws leaves the committed transcript empty and the error set.
\<close>

theorem failed_start_changes_state_counterexample:
  "isListening heard_hello
   \<and> transcript heard_hello = ''hello ''
   \<and> error heard_hello = []
   \<and> transcript (snd (startListening Throws heard_hello)) = []
   \<and> error (snd (startListening Throws heard_hello)) =
       ''Failed to start speech recognition. Please try again.''"
  by (simp add: mount_def initial_def startListening_def onstart_def onresult_eq
      interim_text_def final_text_def delivered_def)

text \<open>
  C7, amended. When the start request throws, \<^verbatim>\<open>startListening\<close> catches the exception
  and returns: \<^verbatim>\<open>isListening\<close> is as before, the committed transcript and the pending
  fragment are empty (they are cleared before the request is made), and the error is
  \<open>''Failed to start speech recognition. Please try again.''\<close>.
\<close>

theorem failed_start_recovers:
  "isSupported s \<Longrightarrow> recognitionRef s = Some r \<Longrightarrow>
   startListening Throws s =
     ([ProviderStart],
      s \<lparr> error := ''Failed to start speech recognition. Please try again.'',
          transcript := [], interimTranscript := [] \<rparr>)
   \<and> isListening (snd (startListening Throws s)) = isListening s"
  by (simp add: startListening_def)

theorem failed_start_recovers_witness:
  "isSupported (mount HasSpeechAPI)
   \<and> recognitionRef (mount HasSpeechAPI) = Some en_US_recognition
   \<and> startListening Throws (mount HasSpeechAPI) =
     ([ProviderStart],
      \<lparr> isListening = False, transcript = [], interimTranscript = [],
        error = ''Failed to start speech recognition. Please try again.'',
        isSupported = True, recognitionRef = Some en_US_recognition \<rparr>)"
  using failed_start_recovers [of "mount HasSpeechAPI" en_US_recognition]
  by (simp add: mount_def initial_def)

text \<open>
  C8, as stated, fails: mounted without a window and then cleared, the hook has an empty
  error, and \<^verbatim>\<open>startListening\<close> leaves it empty, so the error of the resulting state
  mentions no browser.
\<close>

theorem unsupported_start_error_record_counterexample:
  "\<not> isSupported (run [Clear] (mount NoWindow))
   \<and> error (snd (startListening Returns (run [Clear] (mount NoWindow)))) = []
   \<and> \<not> mentions (error (snd (startListening Returns (run [Clear] (mount NoWindow)))))
         ''browser''"
  by (simp add: mount_def initial_def clearTranscript_def startListening_def)

text \<open>
  C8, amended. In every state with \<^verbatim>\<open>isSupported\<close> false, \<^verbatim>\<open>startListening\<close> changes
  nothing in the state (committed transcript, pending fragment and error keep their values),
  makes no call to the recogniser, and raises one alert whose message mentions the browser.
  The error of the state is written when the hook mounts: in an environment without the
  recogniser \<^verbatim>\<open>isSupported\<close> is false and the error mentions the browser.
\<close>

theorem unsupported_start_unchanged:
  "\<not> isSupported s \<Longrightarrow>
   startListening outcome s =
     ([Alert ''Not Supported''
         ''Please open this app in Chrome or Edge browser for speech recognition.''], s)
   \<and> mentions ''Please open this app in Chrome or Edge browser for speech recognition.''
        ''browser''
   \<and> (env \<noteq> HasSpeechAPI \<longrightarrow>
        \<not> isSupported (mount env) \<and> mentions (error (mount env)) ''browser'')"
  by (cases env) (simp_all add: startListening_def mount_def initial_def)

theorem unsupported_start_unchanged_witness:
  "\<not> isSupported (mount NoSpeechAPI) \<and> NoSpeechAPI \<noteq> HasSpeechAPI
   \<and> startListening Returns (mount NoSpeechAPI) =
     ([Alert ''Not Supported''
         ''Please open this app in Chrome or Edge browser for speech recognition.''],
      mount NoSpeechAPI)
   \<and> error (mount NoSpeechAPI) =
       ''Web Speech API not supported in this browser. Please use Chrome or Edge.''
   \<and> mentions (error (mount NoSpeechAPI)) ''browser''"
  using unsupported_start_unchanged [of "mount NoSpeechAPI" Returns NoSpeechAPI]
  by (simp add: mount_def initial_def)

section \<open>Errors\<close>

text \<open>
  C4. While listening with the pending fragment \<open>''hel''\<close>, the error event
  \<open>''not-allowed''\<close> sets the message and clears \<^verbatim>\<open>isListening\<close>, and the pending
  fragment is still \<open>''hel''\<close>: \<^verbatim>\<open>onerror\<close> has no \<^verbatim>\<open>setInterimTranscript('')\<close>, which
  \<^verbatim>\<open>onend\<close> has.
\<close>

theorem onerror_keeps_pending_at_input:
  "isListening heard_hel
   \<and> interimTranscript heard_hel = ''hel''
   \<and> onerror ''not-allowed'' heard_hel =
      \<lparr> isListening = False, transcript = [], interimTranscript = ''hel'',
        error = ''Microphone access denied. Please allow microphone permissions.'',
        isSupported = True, recognitionRef = Some en_US_recognition \<rparr>"
  by (simp add: mount_def initial_def startListening_def onstart_def onresult_eq onerror_def
      errorMessage_def interim_text_def final_text_def delivered_def)

text \<open>
  C5. The error handler stores the message of the code it receives: the four known codes
  have their fixed messages, and any other code \<open>c\<close> gives
  \<open>''Speech recognition error: ''\<close> followed by \<open>c\<close>.
\<close>

theorem onerror_message_table:
  "error (onerror code s) = errorMessage code
   \<and> errorMessage ''not-allowed'' =
       ''Microphone access denied. Please allow microphone permissions.''
   \<and> errorMessage ''no-speech'' = ''No speech detected. Please try again.''
   \<and> errorMessage ''audio-capture'' = ''No microphone found. Please check your microphone.''
   \<and> errorMessage ''network'' = ''Network error. Please check your connection.''
   \<and> (code \<notin> {''not-allowed'', ''no-speech'', ''audio-capture'', ''network''} \<longrightarrow>
        errorMessage code = ''Speech recognition error: '' @ code)"
  by (simp add: onerror_def errorMessage_def)

theorem onerror_message_table_witness:
  "''aborted'' \<notin> {''not-allowed'', ''no-speech'', ''audio-capture'', ''network''}
   \<and> error (onerror ''aborted'' (mount HasSpeechAPI)) = ''Speech recognition error: aborted''"
  using onerror_message_table [of "''aborted''" "mount HasSpeechAPI"] by simp

section \<open>The pending fragment when idle\<close>

text \<open>
  Every handler keeps the property that the hook is listening or holds no pending
  fragment, with two exceptions: a result event handled while idle, which no run of a
  started recogniser contains, and an error event handled while a fragment is pending.
\<close>

lemma step_pending_inv:
  assumes "isListening s \<or> interimTranscript s = []"
    and "results_while_listening (e # es) s"
    and "\<not> error_meets_fragment (e # es) s"
  shows "isListening (snd (step e s)) \<or> interimTranscript (snd (step e s)) = []"
  using assms
  by (cases e) (auto simp: startListening_def stopListening_def clearTranscript_def
      onstart_def onresult_eq onerror_def onend_def Let_def
      split: option.splits call_outcome.splits)

lemma results_while_listening_Cons:
  "results_while_listening (e # es) s \<Longrightarrow> results_while_listening es (snd (step e s))"
  by (cases e) simp_all

lemma error_meets_fragment_Cons:
  "\<not> error_meets_fragment (e # es) s \<Longrightarrow> \<not> error_meets_fragment es (snd (step e s))"
  by (cases e) simp_all

lemma run_pending_inv:
  "isListening s \<or> interimTranscript s = [] \<Longrightarrow> results_while_listening es s \<Longrightarrow>
   \<not> error_meets_fragment es s \<Longrightarrow>
   isListening (run es s) \<or> interimTranscript (run es s) = []"
proof (induction es arbitrary: s)
  case Nil
  then show ?case by simp
next
  case (Cons e es)
  from Cons.prems
  have "isListening (snd (step e s)) \<or> interimTranscript (snd (step e s)) = []"
    by (rule step_pending_inv)
  moreover from Cons.prems(2) have "results_while_listening es (snd (step e s))"
    by (rule results_while_listening_Cons)
  moreover from Cons.prems(3) have "\<not> error_meets_fragment es (snd (step e s))"
    by (rule error_meets_fragment_Cons)
  ultimately
  have "isListening (run es (snd (step e s)))
        \<or> interimTranscript (run es (snd (step e s))) = []"
    by (rule Cons.IH)
  then show ?case by simp
qed

text \<open>
  From the mounted state, on every run in which result events arrive while listening and
  no error event meets a pending fragment, an idle hook holds no pending fragment.
\<close>

lemma idle_pending_empty_without_error_on_fragment:
  "results_while_listening es (mount env) \<Longrightarrow> \<not> error_meets_fragment es (mount env) \<Longrightarrow>
   \<not> isListening (run es (mount env)) \<Longrightarrow> interimTranscript (run es (mount env)) = []"
  using run_pending_inv [of "mount env" es]
  by (cases env) (auto simp: mount_def initial_def)

text \<open>
  C6. The run start, start event, result event with the interim segment \<open>''hel''\<close>,
  error event \<open>''network''\<close> is one a started recogniser produces: the start request is
  issued and the result arrives while listening. At its end the hook is idle and the
  pending fragment is \<open>''hel''\<close>, not empty: \<^verbatim>\<open>onerror\<close> clears \<^verbatim>\<open>isListening\<close>
  and leaves \<^verbatim>\<open>interimTranscript\<close>, where \<^verbatim>\<open>onend\<close> writes both.
\<close>

theorem idle_with_pending_after_error_at_input:
  "effects session_hit_by_error (mount HasSpeechAPI) = [ProviderStart]
   \<and> results_while_listening session_hit_by_error (mount HasSpeechAPI)
   \<and> \<not> isListening (run session_hit_by_error (mount HasSpeechAPI))
   \<and> interimTranscript (run session_hit_by_error (mount HasSpeechAPI)) = ''hel''
   \<and> interimTranscript (run (session_hit_by_error @ [OnEnd]) (mount HasSpeechAPI)) = []"
  by (simp add: mount_def initial_def startListening_def onstart_def onresult_eq onerror_def
      onend_def interim_text_def final_text_def delivered_def)

section \<open>Stopping and copying\<close>

text \<open>
  C9. From a listening state, \<^verbatim>\<open>stopListening\<close> followed by the recogniser's end event
  leaves the hook idle with the committed transcript it had before the stop; the pending
  fragment is emptied and nothing else changes.
\<close>

theorem stop_then_end_keeps_committed:
  "isListening s \<Longrightarrow>
   run [Stop outcome, OnEnd] s = s \<lparr> isListening := False, interimTranscript := [] \<rparr>
   \<and> \<not> isListening (run [Stop outcome, OnEnd] s)
   \<and> transcript (run [Stop outcome, OnEnd] s) = transcript s
   \<and> interimTranscript (run [Stop outcome, OnEnd] s) = []"
  by (simp add: stopListening_def onend_def split: option.splits call_outcome.splits)

theorem stop_then_end_keeps_committed_witness:
  "isListening heard_hello_wor
   \<and> interimTranscript heard_hello_wor = ''wor''
   \<and> run [Stop Returns, OnEnd] heard_hello_wor =
      \<lparr> isListening = False, transcript = ''hello '', interimTranscript = [],
        error = [], isSupported = True, recognitionRef = Some en_US_recognition \<rparr>"
  using stop_then_end_keeps_committed [of heard_hello_wor Returns]
  by (simp add: mount_def initial_def startListening_def onstart_def onresult_eq
      interim_text_def final_text_def delivered_def)

text \<open>
  C10. \<^verbatim>\<open>copyToInput\<close> with a non-empty committed transcript puts it in the text field,
  empties the committed transcript, the pending fragment and the error, and raises the
  alert; with an empty committed transcript it changes nothing and raises nothing.
\<close>

theorem copyToInput_cases:
  "(transcript (speech a) \<noteq> [] \<longrightarrow>
      copyToInput a =
        ([Alert ''Copied!'' ''Speech result copied to text input.''],
         a \<lparr> textToSpeak := transcript (speech a),
             speech := (speech a) \<lparr> transcript := [], interimTranscript := [],
               error := [] \<rparr> \<rparr>))
   \<and> (transcript (speech a) = [] \<longrightarrow> copyToInput a = ([], a))"
  by (simp add: copyToInput_def clearTranscript_def)

theorem copyToInput_cases_witness:
  "transcript (speech app_with_transcript) \<noteq> []
   \<and> snd (copyToInput app_with_transcript) =
      \<lparr> speech = mount HasSpeechAPI, textToSpeak = ''hello '', isSpeaking = False \<rparr>
   \<and> transcript (speech app_without_transcript) = []
   \<and> copyToInput app_without_transcript = ([], app_without_transcript)"
  using copyToInput_cases [of app_with_transcript]
    copyToInput_cases [of app_without_transcript]
  by (simp add: mount_def initial_def)

end
